theory Spec2Isabelle
  imports Complex_Main
begin

section \<open>Data model of the route optimizer\<close>

text \<open>
  The solver module \<^verbatim>\<open>vrp_solver.py\<close> builds a dictionary of problem data, hands it to a
  third-party routing library and reads the library's assignment back into a route. The
  dictionary is a record; the matrices arrive as arrays of floating-point numbers, which are
  taken here as real numbers, and leave as lists of Python integers.
\<close>

datatype error = IndexError | OSRM_Error

record data_model =
  distance_matrix :: "int list list"
  time_matrix :: "int list list"
  time_windows :: "(int \<times> int) list"
  service_times :: "int list"
  num_vehicles :: nat
  depot :: nat
  vehicle_capacity :: int
  vehicle_time_capacity :: int

text \<open>Python's \<^verbatim>\<open>int(x)\<close> on a float: the fractional part is dropped, towards zero.\<close>

definition py_int :: "real \<Rightarrow> int" where
  "py_int x = (if 0 \<le> x then \<lfloor>x\<rfloor> else \<lceil>x\<rceil>)"

text \<open>\<^verbatim>\<open>ndarray.astype(int).tolist()\<close>: the same truncation, entry by entry.\<close>

definition astype_int :: "real list list \<Rightarrow> int list list" where
  "astype_int m = map (map py_int) m"

definition create_data_model ::
  "real list list \<Rightarrow> real list list \<Rightarrow> (int \<times> int) list \<Rightarrow> int list \<Rightarrow> real \<Rightarrow> int \<Rightarrow> data_model" where
  "create_data_model distance_matrix' time_matrix' time_windows' service_times' max_distance max_time =
     \<lparr> distance_matrix = astype_int distance_matrix',
       time_matrix = astype_int time_matrix',
       time_windows = time_windows',
       service_times = service_times',
       num_vehicles = 1,
       depot = 0,
       vehicle_capacity = py_int (max_distance * 1000),
       vehicle_time_capacity = max_time \<rparr>"

section \<open>The routing library as seen from the solver\<close>

text \<open>
  The search itself is done by the routing library, which is not part of the repository.
  The model keeps what \<^verbatim>\<open>solve\<close> tells the library (the index manager, the two transit
  callbacks, the two dimensions and the ranges put on cumulative variables) and what it
  reads back (the successor of an index, the minimum of a cumulative variable). The search
  result is an argument of \<^verbatim>\<open>solve\<close>: either no assignment or an assignment. Theorems about
  a successful solve assume that the assignment satisfies the constraints that \<^verbatim>\<open>solve\<close>
  posted, with the library's documented reading of each call.

  With one vehicle whose start and end are the same depot, the index manager numbers the
  \<open>N\<close> nodes \<open>0 .. N - 1\<close> by themselves (the depot's index is the route start) and gives
  the route end the extra index \<open>N\<close>, which maps back to the depot.
\<close>

definition num_nodes :: "data_model \<Rightarrow> nat" where
  "num_nodes d = length (distance_matrix d)"

definition IndexToNode :: "data_model \<Rightarrow> nat \<Rightarrow> nat" where
  "IndexToNode d index = (if index < num_nodes d then index else depot d)"

definition NodeToIndex :: "data_model \<Rightarrow> nat \<Rightarrow> nat" where
  "NodeToIndex d node = node"

definition routing_Start :: "data_model \<Rightarrow> nat" where
  "routing_Start d = NodeToIndex d (depot d)"

definition routing_End :: "data_model \<Rightarrow> nat" where
  "routing_End d = num_nodes d"

definition routing_IsEnd :: "data_model \<Rightarrow> nat \<Rightarrow> bool" where
  "routing_IsEnd d index \<longleftrightarrow> num_nodes d \<le> index"

text \<open>
  A nested list read \<^verbatim>\<open>m[i][j]\<close>; Python raises \<^verbatim>\<open>IndexError\<close> outside the list, which
  is \<open>None\<close> here.
\<close>

definition entry :: "int list list \<Rightarrow> nat \<Rightarrow> nat \<Rightarrow> int option" where
  "entry m i j = (if i < length m \<and> j < length (m ! i) then Some (m ! i ! j) else None)"

definition distance_callback :: "data_model \<Rightarrow> nat \<Rightarrow> nat \<Rightarrow> int option" where
  "distance_callback d from_index to_index =
     (let from_node = IndexToNode d from_index;
          to_node = IndexToNode d to_index
      in entry (distance_matrix d) from_node to_node)"

definition time_callback :: "data_model \<Rightarrow> nat \<Rightarrow> nat \<Rightarrow> int option" where
  "time_callback d from_index to_index =
     (let from_node = IndexToNode d from_index;
          to_node = IndexToNode d to_index
      in case entry (time_matrix d) from_node to_node of
           None \<Rightarrow> None
         | Some travel_time \<Rightarrow>
             if from_node < length (service_times d)
             then Some (py_int (of_int travel_time + of_int (service_times d ! from_node)))
             else None)"

text \<open>
  What \<^verbatim>\<open>solve\<close> and \<^verbatim>\<open>_extract_solution\<close> read from an assignment:
  \<^verbatim>\<open>solution.Value(routing.NextVar(index))\<close> and \<^verbatim>\<open>solution.Min\<close> of the cumulative
  variable of each dimension at an index. The minima are taken as one valuation of the
  cumulative variables: the posted constraints bound single values and differences of two
  values, and the pointwise minimum of valuations that satisfy such bounds satisfies them.
\<close>

record assignment =
  NextVar_Value :: "nat \<Rightarrow> nat"
  Time_Min :: "nat \<Rightarrow> int"
  Distance_Min :: "nat \<Rightarrow> int"

text \<open>
  \<^verbatim>\<open>AddDimension(transit, slack_max, capacity, fix_start_cumul_to_zero, name)\<close>: every
  cumulative value lies in \<open>[0, capacity]\<close>; along each arc \<open>i \<rightarrow> next i\<close> the cumulative
  value grows by the transit of the arc plus a slack in \<open>[0, slack_max]\<close>; the start is
  zero when asked for. A transit callback that raises is no transit.
\<close>

definition AddDimension ::
  "data_model \<Rightarrow> (nat \<Rightarrow> nat \<Rightarrow> int option) \<Rightarrow> int \<Rightarrow> int \<Rightarrow> bool \<Rightarrow> (nat \<Rightarrow> nat) \<Rightarrow> (nat \<Rightarrow> int) \<Rightarrow> bool" where
  "AddDimension d transit slack_max capacity fix_start_cumul_to_zero nxt cumul \<longleftrightarrow>
     (\<forall>i \<in> set [0..<Suc (num_nodes d)]. 0 \<le> cumul i \<and> cumul i \<le> capacity) \<and>
     (\<forall>i \<in> set [0..<num_nodes d].
        case transit i (nxt i) of
          None \<Rightarrow> False
        | Some t \<Rightarrow> cumul i + t \<le> cumul (nxt i) \<and> cumul (nxt i) \<le> cumul i + t + slack_max) \<and>
     (fix_start_cumul_to_zero \<longrightarrow> cumul (routing_Start d) = 0)"

text \<open>\<^verbatim>\<open>CumulVar(index).SetRange(lo, hi)\<close>.\<close>

definition SetRange :: "(nat \<Rightarrow> int) \<Rightarrow> nat \<Rightarrow> int \<times> int \<Rightarrow> bool" where
  "SetRange cumul index w \<longleftrightarrow> fst w \<le> cumul index \<and> cumul index \<le> snd w"

text \<open>
  The routing model itself, for one vehicle and no optional node: the depot is a node;
  a successor is an index up to the end index and never the start; successors are pairwise
  different; following successors from any node reaches the end (no cycle).
\<close>

definition RoutingModel :: "data_model \<Rightarrow> (nat \<Rightarrow> nat) \<Rightarrow> bool" where
  "RoutingModel d nxt \<longleftrightarrow>
     depot d < num_nodes d \<and>
     (\<forall>i \<in> set [0..<num_nodes d]. nxt i \<le> routing_End d \<and> nxt i \<noteq> routing_Start d) \<and>
     distinct (map nxt [0..<num_nodes d]) \<and>
     (\<forall>i \<in> set [0..<num_nodes d].
        \<exists>k \<in> set [0..<Suc (num_nodes d)]. (nxt ^^ k) i = routing_End d)"

text \<open>
  The constraints posted by \<^verbatim>\<open>solve\<close>, in the order of the source: the distance dimension
  (no slack, capacity \<^verbatim>\<open>vehicle_capacity\<close>, start fixed to zero), the time dimension (slack
  60, capacity \<^verbatim>\<open>vehicle_time_capacity\<close>, start free), the window of every location other
  than the depot on that location's index, and the depot's window on the index that
  \<^verbatim>\<open>NodeToIndex\<close> gives for the depot, which is the route start. The end index gets no
  range of its own. \<^verbatim>\<open>NodeToIndex\<close> is defined on node numbers only, so the windows list
  is no longer than the number of nodes.
\<close>

definition posted_constraints :: "data_model \<Rightarrow> assignment \<Rightarrow> bool" where
  "posted_constraints d a \<longleftrightarrow>
     RoutingModel d (NextVar_Value a) \<and>
     AddDimension d (distance_callback d) 0 (vehicle_capacity d) True
       (NextVar_Value a) (Distance_Min a) \<and>
     AddDimension d (time_callback d) 60 (vehicle_time_capacity d) False
       (NextVar_Value a) (Time_Min a) \<and>
     length (time_windows d) \<le> num_nodes d \<and>
     (\<forall>location_idx \<in> set [0..<length (time_windows d)].
        location_idx \<noteq> depot d \<longrightarrow>
        SetRange (Time_Min a) (NodeToIndex d location_idx) (time_windows d ! location_idx)) \<and>
     depot d < length (time_windows d) \<and>
     SetRange (Time_Min a) (NodeToIndex d (depot d)) (time_windows d ! depot d)"

section \<open>Reading the solution back\<close>

record stop =
  location_index :: nat
  arrival_time :: int
  cumulative_distance :: int

record solution =
  route :: "stop list"
  total_distance_km :: real
  total_time_minutes :: int
  num_locations :: int

definition stop_at :: "data_model \<Rightarrow> assignment \<Rightarrow> nat \<Rightarrow> stop" where
  "stop_at d a index =
     \<lparr> location_index = IndexToNode d index,
       arrival_time = Time_Min a index,
       cumulative_distance = Distance_Min a index \<rparr>"

text \<open>
  The \<^verbatim>\<open>while not self.routing.IsEnd(index)\<close> loop of \<^verbatim>\<open>_extract_solution\<close>. Nothing in
  the loop bounds the number of rounds, so not returning is the value \<open>None\<close>.
\<close>

partial_function (option) walk :: "data_model \<Rightarrow> assignment \<Rightarrow> nat \<Rightarrow> stop list \<Rightarrow> (nat \<times> stop list) option" where
  "walk d a index route' =
     (if routing_IsEnd d index then Some (index, route')
      else walk d a (NextVar_Value a index) (route' @ [stop_at d a index]))"

definition extract_solution :: "data_model \<Rightarrow> assignment \<Rightarrow> solution option" where
  "extract_solution d a =
     (case walk d a (routing_Start d) [] of
        None \<Rightarrow> None
      | Some (index, route') \<Rightarrow>
          (let route'' = route' @ [stop_at d a index];
               total_distance = of_int (Distance_Min a index) / 1000;
               total_time = Time_Min a index
           in Some \<lparr> route = route'',
                     total_distance_km = total_distance,
                     total_time_minutes = total_time,
                     num_locations = int (length route'') - 1 \<rparr>))"

text \<open>
  The outcome of \<^verbatim>\<open>SolveWithParameters\<close>: an assignment, or none. Why there is none (the
  search space was exhausted, or the time limit was reached first) is known to the library;
  \<^verbatim>\<open>solve\<close> looks only at whether there is an assignment.
\<close>

datatype failure_cause = Search_exhausted | Time_limit_reached

datatype search_outcome = Found assignment | Not_found failure_cause

datatype solve_result = Raises error | Returns_None | Returns solution

text \<open>
  \<^verbatim>\<open>solve\<close>: the only read that can raise before the search is the depot's window. The
  outer \<open>option\<close> is \<open>None\<close> when the extraction loop does not return.
\<close>

definition solve :: "data_model \<Rightarrow> search_outcome \<Rightarrow> solve_result option" where
  "solve d outcome =
     (if length (time_windows d) \<le> depot d then Some (Raises IndexError)
      else case outcome of
             Not_found c \<Rightarrow> Some Returns_None
           | Found a \<Rightarrow> map_option Returns (extract_solution d a))"

declare walk.simps [code]


section \<open>The matrix provider\<close>

text \<open>
  \<^verbatim>\<open>distance_matrix.py\<close> asks a routing service for the two matrices and estimates them
  from the coordinates when the request fails. The request is represented by what comes
  back. Floating-point numbers are taken as real numbers.
\<close>

record matrix_data =
  distances :: "real list list"
  durations :: "real list list"
  locations :: "(real \<times> real) list"

datatype osrm_reply = RequestException | Reply string "real list list" "real list list"

definition radians :: "real \<Rightarrow> real" where
  "radians x = x * pi / 180"

definition fallback_dist :: "real \<times> real \<Rightarrow> real \<times> real \<Rightarrow> real" where
  "fallback_dist l1 l2 =
     (case l1 of (lat1, lon1) \<Rightarrow> case l2 of (lat2, lon2) \<Rightarrow>
        (let dlat = (lat2 - lat1) * 111;
             dlon = (lon2 - lon1) * 111 * cos (radians lat1)
         in sqrt (dlat\<^sup>2 + dlon\<^sup>2)))"

definition euclidean_fallback :: "(real \<times> real) list \<Rightarrow> matrix_data" where
  "euclidean_fallback locs =
     (let n = length locs
      in \<lparr> distances =
             map (\<lambda>i. map (\<lambda>j. if i \<noteq> j then fallback_dist (locs ! i) (locs ! j) else 0) [0..<n])
               [0..<n],
           durations =
             map (\<lambda>i. map (\<lambda>j. if i \<noteq> j then fallback_dist (locs ! i) (locs ! j) / 40 * 60 else 0)
               [0..<n]) [0..<n],
           locations = locs \<rparr>)"

definition get_matrix :: "osrm_reply \<Rightarrow> (real \<times> real) list \<Rightarrow> error + matrix_data" where
  "get_matrix reply locs =
     (case reply of
        RequestException \<Rightarrow> Inr (euclidean_fallback locs)
      | Reply code distances_m durations_s \<Rightarrow>
          if code \<noteq> ''Ok'' then Inl OSRM_Error
          else Inr \<lparr> distances = map (map (\<lambda>x. x / 1000)) distances_m,
                     durations = map (map (\<lambda>x. x / 60)) durations_s,
                     locations = locs \<rparr>)"

section \<open>Notions used to state the properties\<close>

text \<open>The order in which the successor chain visits the indices, from the route start.\<close>

definition route_order :: "data_model \<Rightarrow> (nat \<Rightarrow> nat) \<Rightarrow> nat list" where
  "route_order d nxt = map (\<lambda>k. (nxt ^^ k) (routing_Start d)) [0..<num_nodes d]"

text \<open>
  \<open>hits nxt N i k\<close>: following \<open>nxt\<close> from \<open>i\<close> reaches \<open>N\<close> after exactly \<open>k\<close> steps,
  through indices below \<open>N\<close>.
\<close>

definition hits :: "(nat \<Rightarrow> nat) \<Rightarrow> nat \<Rightarrow> nat \<Rightarrow> nat \<Rightarrow> bool" where
  "hits nxt N i k \<longleftrightarrow> (nxt ^^ k) i = N \<and> (\<forall>j<k. (nxt ^^ j) i < N)"

text \<open>
  The sum of a weight over the consecutive pairs of a list; \<open>None\<close> when some weight is
  not there.
\<close>

fun path_total :: "(nat \<Rightarrow> nat \<Rightarrow> int option) \<Rightarrow> nat list \<Rightarrow> int option" where
  "path_total w (x # y # ys) =
     (case w x y of None \<Rightarrow> None | Some t \<Rightarrow> map_option (\<lambda>s. t + s) (path_total w (y # ys)))"
| "path_total w [x] = Some 0"
| "path_total w [] = Some 0"

text \<open>Travel time of an arc between two locations plus the service time at its tail.\<close>

definition travel_plus_service :: "data_model \<Rightarrow> nat \<Rightarrow> nat \<Rightarrow> int option" where
  "travel_plus_service d i j =
     (case entry (time_matrix d) i j of
        None \<Rightarrow> None
      | Some t \<Rightarrow> if i < length (service_times d) then Some (t + service_times d ! i) else None)"

text \<open>A stop's arrival time lies in the window of the stop's location.\<close>

definition in_window :: "data_model \<Rightarrow> stop \<Rightarrow> bool" where
  "in_window d s \<longleftrightarrow>
     fst (time_windows d ! location_index s) \<le> arrival_time s \<and>
     arrival_time s \<le> snd (time_windows d ! location_index s)"

text \<open>Every entry of a matrix of reals is non-negative.\<close>

definition nonneg_matrix :: "real list list \<Rightarrow> bool" where
  "nonneg_matrix m \<longleftrightarrow> (\<forall>row \<in> set m. \<forall>x \<in> set row. 0 \<le> x)"

section \<open>The extraction loop follows the successor chain\<close>

lemma walk_funpow:
  assumes "\<forall>k<n. (NextVar_Value a ^^ k) i < num_nodes d"
    and "num_nodes d \<le> (NextVar_Value a ^^ n) i"
  shows "walk d a i acc =
         Some ((NextVar_Value a ^^ n) i,
               acc @ map (\<lambda>k. stop_at d a ((NextVar_Value a ^^ k) i)) [0..<n])"
  using assms
proof (induction n arbitrary: i acc)
  case 0
  then show ?case by (simp add: walk.simps routing_IsEnd_def)
next
  case (Suc n)
  let ?f = "NextVar_Value a"
  from Suc.prems(1) have i: "i < num_nodes d" by (metis funpow_0 zero_less_Suc)
  have a1: "\<forall>k<n. (?f ^^ k) (?f i) < num_nodes d"
  proof (intro allI impI)
    fix k assume "k < n"
    then have "(?f ^^ Suc k) i < num_nodes d" using Suc.prems(1) by blast
    then show "(?f ^^ k) (?f i) < num_nodes d" by (simp add: funpow_swap1)
  qed
  have a2: "num_nodes d \<le> (?f ^^ n) (?f i)"
    using Suc.prems(2) by (simp add: funpow_swap1)
  have "walk d a i acc = walk d a (?f i) (acc @ [stop_at d a i])"
    using i by (subst walk.simps) (simp add: routing_IsEnd_def)
  also have "\<dots> = Some ((?f ^^ n) (?f i),
       (acc @ [stop_at d a i]) @ map (\<lambda>k. stop_at d a ((?f ^^ k) (?f i))) [0..<n])"
    by (rule Suc.IH [OF a1 a2])
  also have "(?f ^^ n) (?f i) = (?f ^^ Suc n) i" by (simp add: funpow_swap1)
  also have "(acc @ [stop_at d a i]) @ map (\<lambda>k. stop_at d a ((?f ^^ k) (?f i))) [0..<n]
      = acc @ map (\<lambda>k. stop_at d a ((?f ^^ k) i)) [0..<Suc n]"
  proof -
    have "map (\<lambda>k. stop_at d a ((?f ^^ k) i)) [0..<Suc n]
        = stop_at d a i # map (\<lambda>k. stop_at d a ((?f ^^ Suc k) i)) [0..<n]"
      by (simp only: map_upt_Suc) simp
    also have "map (\<lambda>k. stop_at d a ((?f ^^ Suc k) i)) [0..<n]
        = map (\<lambda>k. stop_at d a ((?f ^^ k) (?f i))) [0..<n]"
      by (simp add: funpow_swap1)
    finally show ?thesis by simp
  qed
  finally show ?case .
qed

lemma hits_unique:
  assumes "hits nxt N i k" and "hits nxt N i k'"
  shows "k = k'"
proof (rule ccontr)
  assume "k \<noteq> k'"
  then consider "k < k'" | "k' < k" by arith
  then show False
  proof cases
    case 1
    with assms show False unfolding hits_def by (metis less_irrefl)
  next
    case 2
    with assms show False unfolding hits_def by (metis less_irrefl)
  qed
qed

lemma hits_exists:
  assumes bound: "\<forall>i<N. nxt i \<le> N"
    and reach: "(nxt ^^ k0) i = N"
    and i: "i < N"
  shows "\<exists>k. hits nxt N i k"
proof -
  define k where "k = (LEAST k. (nxt ^^ k) i = N)"
  have at: "(nxt ^^ k) i = N"
    unfolding k_def using reach by (rule LeastI)
  have before: "(nxt ^^ j) i \<noteq> N" if "j < k" for j
    using that not_less_Least unfolding k_def by blast
  have "(nxt ^^ j) i < N" if "j < k" for j
    using that
  proof (induction j)
    case 0
    then show ?case using i by simp
  next
    case (Suc j)
    then have "(nxt ^^ j) i < N" by simp
    with bound have "nxt ((nxt ^^ j) i) \<le> N" by blast
    moreover have "(nxt ^^ Suc j) i \<noteq> N" using before Suc.prems by blast
    ultimately show ?case by simp
  qed
  with at show ?thesis unfolding hits_def by blast
qed

lemma hits_path:
  assumes "hits nxt N s m" and "t \<le> m"
  shows "hits nxt N ((nxt ^^ t) s) (m - t)"
proof -
  have e: "(nxt ^^ j) ((nxt ^^ t) s) = (nxt ^^ (j + t)) s" for j
    by (simp add: funpow_add)
  show ?thesis
    unfolding hits_def e using assms unfolding hits_def by auto
qed

lemma hits_on_path:
  assumes inj: "inj_on nxt {0..<N}"
    and nostart: "\<forall>i<N. nxt i \<noteq> s"
    and hs: "hits nxt N s m"
    and s: "s < N"
  shows "hits nxt N i k \<Longrightarrow> i < N \<Longrightarrow> k \<le> m \<and> i = (nxt ^^ (m - k)) s"
proof (induction k arbitrary: i)
  case 0
  then show ?case by (simp add: hits_def)
next
  case (Suc k)
  have m: "0 < m" using hs s by (cases m) (auto simp: hits_def)
  have pred: "(nxt ^^ t) s < N" if "t < m" for t
    using hs that by (simp add: hits_def)
  show ?case
  proof (cases k)
    case 0
    with Suc.prems have ni: "nxt i = N" by (simp add: hits_def)
    let ?q = "(nxt ^^ (m - 1)) s"
    have q: "?q < N" using pred m by simp
    have "nxt ?q = (nxt ^^ Suc (m - 1)) s" by simp
    also have "\<dots> = N" using hs m by (simp add: hits_def)
    finally have "nxt ?q = nxt i" using ni by simp
    with inj q Suc.prems(2) have "i = ?q" by (auto dest: inj_onD)
    with 0 m show ?thesis by simp
  next
    case (Suc k')
    let ?j = "nxt i"
    have hj: "hits nxt N ?j k"
      using Suc.prems(1) unfolding hits_def
      by (metis Suc_less_eq funpow_simps_right(2) o_apply)
    have "(nxt ^^ 1) i < N" using Suc.prems(1) Suc unfolding hits_def by (metis One_nat_def Suc_less_eq zero_less_Suc)
    then have j: "?j < N" by simp
    from Suc.IH [OF hj j] have km: "k \<le> m" and je: "?j = (nxt ^^ (m - k)) s" by simp_all
    have "?j \<noteq> s" using nostart Suc.prems(2) by blast
    with je have "m - k \<noteq> 0" by (metis funpow_0)
    then have lt: "k < m" by simp
    let ?q = "(nxt ^^ (m - Suc k)) s"
    have q: "?q < N" using pred lt by simp
    have "nxt ?q = (nxt ^^ Suc (m - Suc k)) s" by simp
    also have "Suc (m - Suc k) = m - k" using lt by simp
    finally have "nxt ?q = nxt i" using je by simp
    with inj q Suc.prems(2) have "i = ?q" by (auto dest: inj_onD)
    with lt show ?thesis by simp
  qed
qed

lemma RoutingModel_path:
  assumes rm: "RoutingModel d nxt"
  shows "hits nxt (num_nodes d) (routing_Start d) (num_nodes d)
       \<and> inj_on (\<lambda>k. (nxt ^^ k) (routing_Start d)) {0..<num_nodes d}
       \<and> (\<lambda>k. (nxt ^^ k) (routing_Start d)) ` {0..<num_nodes d} = {0..<num_nodes d}"
proof -
  let ?N = "num_nodes d"
  let ?s = "routing_Start d"
  let ?p = "\<lambda>k. (nxt ^^ k) ?s"
  from rm have s: "?s < ?N"
    and bound: "\<forall>i<?N. nxt i \<le> ?N"
    and nostart: "\<forall>i<?N. nxt i \<noteq> ?s"
    and dist: "distinct (map nxt [0..<?N])"
    and reach: "\<forall>i<?N. \<exists>k. (nxt ^^ k) i = ?N"
    unfolding RoutingModel_def routing_Start_def NodeToIndex_def routing_End_def
    by auto
  from dist have inj: "inj_on nxt {0..<?N}" by (simp add: distinct_map)
  have ex: "\<exists>k. hits nxt ?N i k" if "i < ?N" for i
    using reach that hits_exists [OF bound _ that] by blast
  from ex [OF s] obtain m where hs: "hits nxt ?N ?s m" by blast
  have onp: "\<exists>t<m. i = ?p t" if "i < ?N" for i
  proof -
    from ex [OF that] obtain k where hk: "hits nxt ?N i k" by blast
    from hits_on_path [OF inj nostart hs s hk that]
    have km: "k \<le> m" and ie: "i = ?p (m - k)" by simp_all
    have "k \<noteq> 0"
    proof
      assume "k = 0"
      with hk have "i = num_nodes d" by (simp add: hits_def)
      with that show False by simp
    qed
    with km have "m - k < m" by simp
    with ie show ?thesis by blast
  qed
  have inp: "?p t < ?N" if "t < m" for t
    using hs that by (simp add: hits_def)
  have injp: "inj_on ?p {0..<m}"
  proof (rule inj_onI)
    fix t t' assume t: "t \<in> {0..<m}" and t': "t' \<in> {0..<m}" and e: "?p t = ?p t'"
    from t have h1: "hits nxt ?N (?p t) (m - t)" using hits_path [OF hs] by simp
    from t' have h2: "hits nxt ?N (?p t') (m - t')" using hits_path [OF hs] by simp
    from h1 h2 e have "m - t = m - t'" by (metis hits_unique)
    with t t' show "t = t'" by simp
  qed
  have img: "?p ` {0..<m} = {0..<?N}"
  proof
    show "?p ` {0..<m} \<subseteq> {0..<?N}" using inp by auto
    show "{0..<?N} \<subseteq> ?p ` {0..<m}"
    proof
      fix i assume "i \<in> {0..<?N}"
      then have "i < ?N" by simp
      from onp [OF this] show "i \<in> ?p ` {0..<m}" by auto
    qed
  qed
  have "card (?p ` {0..<m}) = m" using injp by (simp add: card_image)
  with img have "m = ?N" by simp
  with hs injp img show ?thesis by simp
qed

lemma RoutingModel_order:
  assumes rm: "RoutingModel d nxt"
  shows "distinct (route_order d nxt)"
    and "set (route_order d nxt) = {0..<num_nodes d}"
    and "length (route_order d nxt) = num_nodes d"
    and "(nxt ^^ num_nodes d) (routing_Start d) = routing_End d"
proof -
  note p = RoutingModel_path [OF rm]
  from p show "distinct (route_order d nxt)"
    by (simp add: route_order_def distinct_map)
  from p show "set (route_order d nxt) = {0..<num_nodes d}"
    by (simp add: route_order_def)
  show "length (route_order d nxt) = num_nodes d"
    by (simp add: route_order_def)
  from p show "(nxt ^^ num_nodes d) (routing_Start d) = routing_End d"
    by (simp add: hits_def routing_End_def)
qed

lemma walk_route_order:
  assumes rm: "RoutingModel d (NextVar_Value a)"
  shows "walk d a (routing_Start d) [] =
         Some (routing_End d, map (stop_at d a) (route_order d (NextVar_Value a)))"
proof -
  from RoutingModel_path [OF rm]
  have h: "hits (NextVar_Value a) (num_nodes d) (routing_Start d) (num_nodes d)" by simp
  then have b: "\<forall>k<num_nodes d. (NextVar_Value a ^^ k) (routing_Start d) < num_nodes d"
    and e: "(NextVar_Value a ^^ num_nodes d) (routing_Start d) = num_nodes d"
    by (simp_all add: hits_def)
  from e have e': "num_nodes d \<le> (NextVar_Value a ^^ num_nodes d) (routing_Start d)" by simp
  from walk_funpow [OF b e', of "[]"] e show ?thesis
    by (simp add: route_order_def routing_End_def comp_def)
qed

lemma extract_solution_eq:
  assumes rm: "RoutingModel d (NextVar_Value a)"
  shows "extract_solution d a =
         Some \<lparr> route = map (stop_at d a) (route_order d (NextVar_Value a) @ [routing_End d]),
                total_distance_km = of_int (Distance_Min a (routing_End d)) / 1000,
                total_time_minutes = Time_Min a (routing_End d),
                num_locations = int (num_nodes d) \<rparr>"
  by (simp add: extract_solution_def walk_route_order [OF rm] Let_def route_order_def)

section \<open>Auxiliary facts\<close>

lemma py_int_of_int: "py_int (of_int n) = n"
  by (simp add: py_int_def)

lemma py_int_nonneg: "0 \<le> x \<Longrightarrow> 0 \<le> py_int x"
  by (simp add: py_int_def)



lemma time_callback_eq:
  "time_callback d i j = travel_plus_service d (IndexToNode d i) (IndexToNode d j)"
  by (simp add: time_callback_def travel_plus_service_def Let_def py_int_def split: option.splits)

lemma path_total_map:
  "path_total (\<lambda>i j. w (f i) (f j)) xs = path_total w (map f xs)"
  by (induction "\<lambda>i j. w (f i) (f j)" xs rule: path_total.induct) (auto split: option.splits)

lemma count_list_distinct:
  "distinct xs \<Longrightarrow> x \<in> set xs \<Longrightarrow> count_list xs x = 1"
  by (induction xs) auto

lemma iterates_Cons:
  "map (\<lambda>k. (f ^^ k) i) [0..<Suc n] = i # map (\<lambda>k. (f ^^ k) (f i)) [0..<n]"
  by (simp only: map_upt_Suc) (simp add: funpow_swap1)

text \<open>Cumulative values along the chain: transit sum plus bounded slack.\<close>

lemma dimension_along_chain:
  assumes arcs: "\<forall>i<N. case transit i (nxt i) of None \<Rightarrow> False
                 | Some t \<Rightarrow> cumul i + t \<le> cumul (nxt i) \<and> cumul (nxt i) \<le> cumul i + t + slack_max"
  shows "\<forall>k<n. (nxt ^^ k) i < N \<Longrightarrow>
         \<exists>S. path_total transit (map (\<lambda>k. (nxt ^^ k) i) [0..<Suc n]) = Some S
            \<and> cumul i + S \<le> cumul ((nxt ^^ n) i)
            \<and> cumul ((nxt ^^ n) i) \<le> cumul i + S + slack_max * int n"
proof (induction n arbitrary: i)
  case 0
  then show ?case by simp
next
  case (Suc n)
  from Suc.prems have i: "i < N" by (metis funpow_0 zero_less_Suc)
  have pre: "\<forall>k<n. (nxt ^^ k) (nxt i) < N"
  proof (intro allI impI)
    fix k assume "k < n"
    then have "(nxt ^^ Suc k) i < N" using Suc.prems by blast
    then show "(nxt ^^ k) (nxt i) < N" by (simp add: funpow_swap1)
  qed
  from Suc.IH [OF pre] obtain S where
    S: "path_total transit (map (\<lambda>k. (nxt ^^ k) (nxt i)) [0..<Suc n]) = Some S"
    and lo: "cumul (nxt i) + S \<le> cumul ((nxt ^^ n) (nxt i))"
    and hi: "cumul ((nxt ^^ n) (nxt i)) \<le> cumul (nxt i) + S + slack_max * int n"
    by blast
  from arcs i obtain t where t: "transit i (nxt i) = Some t"
    and tlo: "cumul i + t \<le> cumul (nxt i)"
    and thi: "cumul (nxt i) \<le> cumul i + t + slack_max"
    by (auto split: option.splits)
  have e: "(nxt ^^ Suc n) i = (nxt ^^ n) (nxt i)" by (simp add: funpow_swap1)
  have l: "map (\<lambda>k. (nxt ^^ k) i) [0..<Suc (Suc n)]
         = i # map (\<lambda>k. (nxt ^^ k) (nxt i)) [0..<Suc n]"
    by (rule iterates_Cons)
  have l2: "map (\<lambda>k. (nxt ^^ k) (nxt i)) [0..<Suc n]
         = nxt i # map (\<lambda>k. (nxt ^^ k) (nxt (nxt i))) [0..<n]"
    by (rule iterates_Cons)
  have "path_total transit (map (\<lambda>k. (nxt ^^ k) i) [0..<Suc (Suc n)]) = Some (t + S)"
    unfolding l using S t unfolding l2 by simp
  moreover have "cumul i + (t + S) \<le> cumul ((nxt ^^ Suc n) i)"
    unfolding e using lo tlo by simp
  moreover have "cumul ((nxt ^^ Suc n) i) \<le> cumul i + (t + S) + slack_max * int (Suc n)"
    unfolding e using hi thi by (simp add: algebra_simps)
  ultimately show ?case by blast
qed

lemma solve_Found:
  assumes pc: "posted_constraints d a"
  shows "solve d (Found a) =
         Some (Returns
           \<lparr> route = map (stop_at d a) (route_order d (NextVar_Value a) @ [routing_End d]),
             total_distance_km = of_int (Distance_Min a (routing_End d)) / 1000,
             total_time_minutes = Time_Min a (routing_End d),
             num_locations = int (num_nodes d) \<rparr>)"
proof -
  from pc have rm: "RoutingModel d (NextVar_Value a)"
    and dw: "depot d < length (time_windows d)"
    by (simp_all add: posted_constraints_def)
  from dw show ?thesis
    by (simp add: solve_def extract_solution_eq [OF rm])
qed

lemma route_order_nth:
  "k < num_nodes d \<Longrightarrow> route_order d nxt ! k = (nxt ^^ k) (routing_Start d)"
  by (simp add: route_order_def)

lemma route_order_locations:
  assumes rm: "RoutingModel d nxt"
  shows "map (IndexToNode d) (route_order d nxt @ [routing_End d]) = route_order d nxt @ [depot d]"
proof -
  from RoutingModel_order(2) [OF rm] have "\<forall>i \<in> set (route_order d nxt). i < num_nodes d"
    by simp
  then have "map (IndexToNode d) (route_order d nxt) = route_order d nxt"
    by (simp add: IndexToNode_def map_idI)
  then show ?thesis by (simp add: IndexToNode_def routing_End_def)
qed

lemma route_order_hd:
  assumes rm: "RoutingModel d nxt"
  shows "route_order d nxt \<noteq> []" and "hd (route_order d nxt) = depot d"
proof -
  from rm have N: "0 < num_nodes d" by (simp add: RoutingModel_def)
  then show "route_order d nxt \<noteq> []" by (simp add: route_order_def)
  from N have "hd (route_order d nxt) = route_order d nxt ! 0"
    by (simp add: hd_conv_nth route_order_def)
  also have "\<dots> = depot d" using N by (simp add: route_order_nth routing_Start_def NodeToIndex_def)
  finally show "hd (route_order d nxt) = depot d" .
qed

lemma location_index_stop_at: "location_index (stop_at d a i) = IndexToNode d i"
  by (simp add: stop_at_def)

lemma route_locations:
  assumes rm: "RoutingModel d nxt"
  shows "map location_index (map (stop_at d a) (route_order d nxt @ [routing_End d]))
       = route_order d nxt @ [depot d]"
proof -
  have "map location_index (map (stop_at d a) (route_order d nxt @ [routing_End d]))
      = map (IndexToNode d) (route_order d nxt @ [routing_End d])"
    unfolding map_map by (rule map_cong) (simp_all add: location_index_stop_at)
  then show ?thesis by (simp only: route_order_locations [OF rm])
qed

lemma posted_window:
  assumes pc: "posted_constraints d a"
    and i: "i < length (time_windows d)"
  shows "SetRange (Time_Min a) i (time_windows d ! i)"
proof (cases "i = depot d")
  case True
  with pc show ?thesis by (simp add: posted_constraints_def NodeToIndex_def)
next
  case False
  from pc have "\<forall>l \<in> set [0..<length (time_windows d)].
      l \<noteq> depot d \<longrightarrow> SetRange (Time_Min a) (NodeToIndex d l) (time_windows d ! l)"
    by (simp add: posted_constraints_def)
  with i False show ?thesis by (simp add: NodeToIndex_def)
qed

lemma posted_time_capacity:
  assumes pc: "posted_constraints d a" and i: "i \<le> num_nodes d"
  shows "0 \<le> Time_Min a i \<and> Time_Min a i \<le> vehicle_time_capacity d"
proof -
  from pc have "\<forall>i \<in> set [0..<Suc (num_nodes d)].
      0 \<le> Time_Min a i \<and> Time_Min a i \<le> vehicle_time_capacity d"
    by (simp only: posted_constraints_def AddDimension_def) blast
  moreover from i have "i \<in> set [0..<Suc (num_nodes d)]" by auto
  ultimately show ?thesis by blast
qed

lemma posted_distance_capacity:
  assumes pc: "posted_constraints d a" and i: "i \<le> num_nodes d"
  shows "0 \<le> Distance_Min a i \<and> Distance_Min a i \<le> vehicle_capacity d"
proof -
  from pc have "\<forall>i \<in> set [0..<Suc (num_nodes d)].
      0 \<le> Distance_Min a i \<and> Distance_Min a i \<le> vehicle_capacity d"
    by (simp only: posted_constraints_def AddDimension_def) blast
  moreover from i have "i \<in> set [0..<Suc (num_nodes d)]" by auto
  ultimately show ?thesis by blast
qed


lemmas model_defs = posted_constraints_def create_data_model_def astype_int_def py_int_def
      RoutingModel_def AddDimension_def SetRange_def num_nodes_def routing_End_def routing_Start_def
      NodeToIndex_def distance_callback_def time_callback_def IndexToNode_def entry_def


lemma route_chain:
  assumes rm: "RoutingModel d nxt"
  shows "route_order d nxt @ [routing_End d]
       = map (\<lambda>k. (nxt ^^ k) (routing_Start d)) [0..<Suc (num_nodes d)]"
  using RoutingModel_order(4) [OF rm] by (simp add: route_order_def)

lemma chain_below:
  assumes rm: "RoutingModel d nxt"
  shows "\<forall>k<num_nodes d. (nxt ^^ k) (routing_Start d) < num_nodes d"
  using RoutingModel_path [OF rm] by (simp add: hits_def)

lemma AddDimension_arcs:
  assumes "AddDimension d transit slack_max capacity fix nxt cumul"
  shows "\<forall>i<num_nodes d. case transit i (nxt i) of None \<Rightarrow> False
           | Some t \<Rightarrow> cumul i + t \<le> cumul (nxt i) \<and> cumul (nxt i) \<le> cumul i + t + slack_max"
  using assms by (simp add: AddDimension_def)

lemma posted_distance:
  assumes pc: "posted_constraints d a"
  shows "AddDimension d (distance_callback d) 0 (vehicle_capacity d) True
           (NextVar_Value a) (Distance_Min a)"
  using pc by (simp add: posted_constraints_def)

lemma posted_time:
  assumes pc: "posted_constraints d a"
  shows "AddDimension d (time_callback d) 60 (vehicle_time_capacity d) False
           (NextVar_Value a) (Time_Min a)"
  using pc by (simp add: posted_constraints_def)

lemma posted_RoutingModel:
  "posted_constraints d a \<Longrightarrow> RoutingModel d (NextVar_Value a)"
  by (simp add: posted_constraints_def)

lemma distance_callback_eq:
  "distance_callback d i j = entry (distance_matrix d) (IndexToNode d i) (IndexToNode d j)"
  by (simp add: distance_callback_def)

text \<open>The locations of the first \<open>k + 1\<close> stops are the nodes of the first \<open>k + 1\<close> indices of the chain.\<close>

lemma take_route_locations:
  assumes rm: "RoutingModel d nxt" and k: "k \<le> num_nodes d"
  shows "take (Suc k) (map location_index (map (stop_at d a) (route_order d nxt @ [routing_End d])))
       = map (IndexToNode d) (map (\<lambda>j. (nxt ^^ j) (routing_Start d)) [0..<Suc k])"
proof -
  have "map location_index (map (stop_at d a) (route_order d nxt @ [routing_End d]))
      = map (IndexToNode d) (map (\<lambda>j. (nxt ^^ j) (routing_Start d)) [0..<Suc (num_nodes d)])"
    unfolding route_chain [OF rm] map_map
    by (rule map_cong) (simp_all add: location_index_stop_at)
  moreover have "take (Suc k) [0..<Suc (num_nodes d)] = [0..<Suc k]"
    using k by (simp only: take_upt) simp
  ultimately show ?thesis by (simp only: take_map)
qed

text \<open>The distance read at the \<open>k\<close>-th stop is the sum of the matrix entries up to it.\<close>

lemma distance_at_stop:
  assumes pc: "posted_constraints d a" and k: "k \<le> num_nodes d"
  shows "path_total (entry (distance_matrix d))
           (map (IndexToNode d) (map (\<lambda>j. (NextVar_Value a ^^ j) (routing_Start d)) [0..<Suc k]))
         = Some (Distance_Min a ((NextVar_Value a ^^ k) (routing_Start d)))"
proof -
  let ?n = "NextVar_Value a"
  let ?s = "routing_Start d"
  have rm: "RoutingModel d ?n" by (rule posted_RoutingModel [OF pc])
  have below: "\<forall>j<k. (?n ^^ j) ?s < num_nodes d"
    using chain_below [OF rm] k by simp
  from dimension_along_chain [where transit = "distance_callback d" and nxt = ?n
      and cumul = "Distance_Min a" and slack_max = 0 and N = "num_nodes d" and n = k and i = ?s,
      OF AddDimension_arcs [OF posted_distance [OF pc]] below]
  obtain S where S: "path_total (distance_callback d) (map (\<lambda>j. (?n ^^ j) ?s) [0..<Suc k]) = Some S"
    and lo: "Distance_Min a ?s + S \<le> Distance_Min a ((?n ^^ k) ?s)"
    and hi: "Distance_Min a ((?n ^^ k) ?s) \<le> Distance_Min a ?s + S + 0 * int k"
    by blast
  from posted_distance [OF pc] have "Distance_Min a ?s = 0" by (simp add: AddDimension_def)
  with lo hi have "Distance_Min a ((?n ^^ k) ?s) = S" by simp
  moreover have "path_total (distance_callback d) (map (\<lambda>j. (?n ^^ j) ?s) [0..<Suc k])
      = path_total (entry (distance_matrix d)) (map (IndexToNode d) (map (\<lambda>j. (?n ^^ j) ?s) [0..<Suc k]))"
    using path_total_map [of "entry (distance_matrix d)" "IndexToNode d"]
    by (simp add: distance_callback_def [abs_def] Let_def)
  ultimately show ?thesis using S by simp
qed

text \<open>The time read at the \<open>k\<close>-th stop is the start time plus the arc sum plus bounded waiting.\<close>

lemma time_at_stop:
  assumes pc: "posted_constraints d a" and k: "k \<le> num_nodes d"
  shows "\<exists>T. path_total (travel_plus_service d)
           (map (IndexToNode d) (map (\<lambda>j. (NextVar_Value a ^^ j) (routing_Start d)) [0..<Suc k]))
         = Some T
       \<and> Time_Min a (routing_Start d) + T \<le> Time_Min a ((NextVar_Value a ^^ k) (routing_Start d))
       \<and> Time_Min a ((NextVar_Value a ^^ k) (routing_Start d))
           \<le> Time_Min a (routing_Start d) + T + 60 * int k"
proof -
  let ?n = "NextVar_Value a"
  let ?s = "routing_Start d"
  let ?N = "num_nodes d"
  have rm: "RoutingModel d ?n" by (rule posted_RoutingModel [OF pc])
  have below: "\<forall>j<k. (?n ^^ j) ?s < ?N"
    using chain_below [OF rm] k by simp
  from dimension_along_chain [where transit = "time_callback d" and nxt = ?n
      and cumul = "Time_Min a" and slack_max = 60 and N = ?N and n = k and i = ?s,
      OF AddDimension_arcs [OF posted_time [OF pc]] below]
  obtain T where T: "path_total (time_callback d) (map (\<lambda>j. (?n ^^ j) ?s) [0..<Suc k]) = Some T"
    and lo: "Time_Min a ?s + T \<le> Time_Min a ((?n ^^ k) ?s)"
    and hi: "Time_Min a ((?n ^^ k) ?s) \<le> Time_Min a ?s + T + 60 * int k"
    by blast
  have "path_total (time_callback d) (map (\<lambda>j. (?n ^^ j) ?s) [0..<Suc k])
      = path_total (travel_plus_service d) (map (IndexToNode d) (map (\<lambda>j. (?n ^^ j) ?s) [0..<Suc k]))"
    using path_total_map [of "travel_plus_service d" "IndexToNode d"]
    by (simp add: time_callback_eq [abs_def])
  with T have "path_total (travel_plus_service d)
      (map (IndexToNode d) (map (\<lambda>j. (?n ^^ j) ?s) [0..<Suc k])) = Some T"
    by (simp only:)
  with lo hi show ?thesis by blast
qed

lemma route_nth_chain:
  assumes rm: "RoutingModel d nxt" and k: "k \<le> num_nodes d"
  shows "map (stop_at d a) (route_order d nxt @ [routing_End d]) ! k
         = stop_at d a ((nxt ^^ k) (routing_Start d))"
proof -
  have "k < length [0..<Suc (num_nodes d)]" using k by simp
  then show ?thesis
    unfolding route_chain [OF rm] map_map
    by (simp only: nth_map nth_upt length_upt) simp
qed

lemma chain_sorted:
  assumes arcs: "\<forall>i<N. case transit i (nxt i) of None \<Rightarrow> False
                 | Some t \<Rightarrow> cumul i + t \<le> cumul (nxt i) \<and> cumul (nxt i) \<le> cumul i + t + slack_max"
    and nn: "\<And>i j t. transit i j = Some t \<Longrightarrow> (0::int) \<le> t"
    and below: "\<forall>k<n. (nxt ^^ k) s < N"
  shows "sorted (map cumul (map (\<lambda>k. (nxt ^^ k) s) [0..<Suc n]))"
proof -
  let ?xs = "map cumul (map (\<lambda>k. (nxt ^^ k) s) [0..<Suc n])"
  have nth: "?xs ! k = cumul ((nxt ^^ k) s)" if "k < Suc n" for k
  proof -
    from that have "k < length [0..<Suc n]" by simp
    then show ?thesis unfolding map_map by (simp only: nth_map nth_upt length_upt) simp
  qed
  have step: "?xs ! k \<le> ?xs ! Suc k" if k: "Suc k < length ?xs" for k
  proof -
    from k have kn: "k < n" by simp
    let ?i = "(nxt ^^ k) s"
    from below kn have i: "?i < N" by blast
    with arcs obtain t where t: "transit ?i (nxt ?i) = Some t"
      and le: "cumul ?i + t \<le> cumul (nxt ?i)"
      by (auto split: option.splits)
    from nn [OF t] le have "cumul ?i \<le> cumul (nxt ?i)" by simp
    moreover have "?xs ! k = cumul ?i" using kn by (intro nth) simp
    moreover have "?xs ! Suc k = cumul (nxt ?i)" using kn nth [of "Suc k"] by simp
    ultimately show ?thesis by (simp only:)
  qed
  show ?thesis unfolding sorted_iff_nth_Suc using step by blast
qed

lemma entry_astype_int_nonneg:
  assumes nn: "nonneg_matrix m" and e: "entry (astype_int m) i j = Some t"
  shows "0 \<le> t"
proof -
  from e have i: "i < length m" and j: "j < length (m ! i)" and t: "t = py_int (m ! i ! j)"
    by (auto simp: entry_def astype_int_def split: if_splits)
  from i have "m ! i \<in> set m" by simp
  moreover from j have "m ! i ! j \<in> set (m ! i)" by simp
  ultimately have "0 \<le> m ! i ! j" using nn unfolding nonneg_matrix_def by blast
  with t show ?thesis by (simp add: py_int_nonneg)
qed

lemma cumulative_distance_stop_at: "cumulative_distance (stop_at d a i) = Distance_Min a i"
  by (simp add: stop_at_def)

lemma arrival_time_stop_at: "arrival_time (stop_at d a i) = Time_Min a i"
  by (simp add: stop_at_def)



lemma fallback_dist_nonneg: "0 \<le> fallback_dist l1 l2"
  by (cases l1; cases l2) (simp add: fallback_dist_def Let_def)

text \<open>With a depot and one client there is one route.\<close>

lemma two_nodes_route:
  assumes rm: "RoutingModel d nxt" and N: "num_nodes d = 2" and dep: "depot d = 0"
  shows "nxt 0 = 1" and "nxt 1 = 2"
proof -
  from RoutingModel_path [OF rm]
  have h: "hits nxt 2 0 2"
    unfolding N by (simp add: routing_Start_def NodeToIndex_def dep)
  from h have "(nxt ^^ 1) 0 < 2" unfolding hits_def by (metis one_less_numeral_iff semiring_norm(76))
  then have lt: "nxt 0 < 2" by simp
  from rm have "nxt 0 \<noteq> 0"
    by (simp add: RoutingModel_def N routing_Start_def NodeToIndex_def dep)
  with lt show n0: "nxt 0 = 1" by simp
  from h have "(nxt ^^ 2) 0 = 2" by (simp add: hits_def)
  then show "nxt 1 = 2" using n0 by (simp add: numeral_2_eq_2)
qed

section \<open>Properties of a successful solve\<close>

text \<open>
  Claim C1. When the search finds an assignment that satisfies the posted constraints,
  \<^verbatim>\<open>solve\<close> returns a route of \<open>N + 1\<close> stops, \<open>N\<close> being the size of the distance matrix:
  the first and the last stop are the depot (location 0), every other location occurs
  exactly once among the stops, and \<^verbatim>\<open>num_locations\<close> is \<open>N\<close>.
\<close>

theorem solve_route_is_tour:
  assumes pc: "posted_constraints (create_data_model dm tm tw st md mt) a"
  shows "\<exists>r. solve (create_data_model dm tm tw st md mt) (Found a) = Some (Returns r)
           \<and> length (route r) = length dm + 1
           \<and> location_index (hd (route r)) = 0
           \<and> location_index (last (route r)) = 0
           \<and> (\<forall>loc. 0 < loc \<and> loc < length dm \<longrightarrow>
                 count_list (map location_index (route r)) loc = 1)
           \<and> num_locations r = int (length dm)"
proof -
  let ?d = "create_data_model dm tm tw st md mt"
  let ?ord = "route_order ?d (NextVar_Value a)"
  let ?r = "\<lparr> route = map (stop_at ?d a) (?ord @ [routing_End ?d]),
             total_distance_km = of_int (Distance_Min a (routing_End ?d)) / 1000,
             total_time_minutes = Time_Min a (routing_End ?d),
             num_locations = int (num_nodes ?d) \<rparr>"
  from pc have rm: "RoutingModel ?d (NextVar_Value a)" by (simp add: posted_constraints_def)
  have N: "num_nodes ?d = length dm"
    by (simp add: num_nodes_def create_data_model_def astype_int_def)
  have dep: "depot ?d = 0" by (simp add: create_data_model_def)
  have locs: "map location_index (route ?r) = ?ord @ [0]"
    using route_locations [OF rm, of a] by (simp add: dep)
  have s: "solve ?d (Found a) = Some (Returns ?r)" by (rule solve_Found [OF pc])
  have len: "length (route ?r) = length dm + 1"
    using RoutingModel_order(3) [OF rm] N by simp
  have ne: "?ord \<noteq> []" by (rule route_order_hd(1) [OF rm])
  have "location_index (hd (route ?r)) = hd (map location_index (route ?r))"
    using ne by (simp add: hd_map)
  also have "\<dots> = 0"
    unfolding locs using ne route_order_hd(2) [OF rm] dep by simp
  finally have first: "location_index (hd (route ?r)) = 0" .
  have "location_index (last (route ?r)) = last (map location_index (route ?r))"
    by (simp add: last_map)
  also have "\<dots> = 0" unfolding locs by simp
  finally have final: "location_index (last (route ?r)) = 0" .
  have once: "count_list (map location_index (route ?r)) loc = 1"
    if "0 < loc \<and> loc < length dm" for loc
  proof -
    from that N RoutingModel_order(2) [OF rm] have "loc \<in> set ?ord" by simp
    with RoutingModel_order(1) [OF rm] have "count_list ?ord loc = 1"
      by (simp add: count_list_distinct)
    with that show ?thesis unfolding locs by simp
  qed
  have nl: "num_locations ?r = int (length dm)" using N by simp
  from s len first final once nl show ?thesis by blast
qed

theorem solve_route_is_tour_witness:
  "posted_constraints
     (create_data_model [[0, 1000, 2000], [1000, 0, 1500], [2000, 1500, 0]]
        [[0, 10, 20], [10, 0, 15], [20, 15, 0]] [(0, 480), (0, 480), (0, 480)] [0, 5, 5] 10 480)
     \<lparr> NextVar_Value = (\<lambda>i. i)(0 := 2, 2 := 1, 1 := 3),
       Time_Min = (\<lambda>i. 0)(2 := 20, 1 := 40, 3 := 55),
       Distance_Min = (\<lambda>i. 0)(2 := 2000, 1 := 3500, 3 := 4500) \<rparr>
   \<and> (\<exists>r. solve
         (create_data_model [[0, 1000, 2000], [1000, 0, 1500], [2000, 1500, 0]]
            [[0, 10, 20], [10, 0, 15], [20, 15, 0]] [(0, 480), (0, 480), (0, 480)] [0, 5, 5] 10 480)
         (Found \<lparr> NextVar_Value = (\<lambda>i. i)(0 := 2, 2 := 1, 1 := 3),
                  Time_Min = (\<lambda>i. 0)(2 := 20, 1 := 40, 3 := 55),
                  Distance_Min = (\<lambda>i. 0)(2 := 2000, 1 := 3500, 3 := 4500) \<rparr>) = Some (Returns r)
       \<and> length (route r) = 4
       \<and> location_index (hd (route r)) = 0
       \<and> location_index (last (route r)) = 0
       \<and> count_list (map location_index (route r)) 1 = 1
       \<and> count_list (map location_index (route r)) 2 = 1
       \<and> num_locations r = 3)"
proof -
  let ?a = "\<lparr> NextVar_Value = (\<lambda>i. i)(0 := 2, 2 := 1, 1 := (3::nat)),
       Time_Min = (\<lambda>i. 0)(2 := 20, 1 := 40, 3 := (55::int)),
       Distance_Min = (\<lambda>i. 0)(2 := 2000, 1 := 3500, 3 := (4500::int)) \<rparr>"
  have h: "posted_constraints
     (create_data_model [[0, 1000, 2000], [1000, 0, 1500], [2000, 1500, 0]]
        [[0, 10, 20], [10, 0, 15], [20, 15, 0]] [(0, 480), (0, 480), (0, 480)] [0, 5, 5] 10 480) ?a"
    by (simp add: posted_constraints_def create_data_model_def astype_int_def py_int_def
      RoutingModel_def AddDimension_def SetRange_def num_nodes_def routing_End_def routing_Start_def
      NodeToIndex_def distance_callback_def time_callback_def IndexToNode_def entry_def)
  from solve_route_is_tour [OF h] h show ?thesis
    by auto
qed



text \<open>
  In the instance with depot window \<open>(0, 10)\<close>, every assignment that satisfies the posted
  constraints is returned with a closing stop outside the depot's window.
\<close>

lemma closing_stop_always_late:
  assumes pc: "posted_constraints
     (create_data_model [[0, 20], [20, 0]] [[0, 20], [20, 0]] [(0, 10), (0, 100)] [0, 0] 1 1000) a"
  shows "\<exists>r. solve
       (create_data_model [[0, 20], [20, 0]] [[0, 20], [20, 0]] [(0, 10), (0, 100)] [0, 0] 1 1000)
       (Found a) = Some (Returns r)
     \<and> \<not> in_window
       (create_data_model [[0, 20], [20, 0]] [[0, 20], [20, 0]] [(0, 10), (0, 100)] [0, 0] 1 1000)
       (last (route r))"
proof -
  let ?d = "create_data_model [[0, 20], [20, 0]] [[0, 20], [20, 0]] [(0, 10), (0, 100)] [0, 0] 1 1000"
  let ?n = "NextVar_Value a"
  let ?r = "\<lparr> route = map (stop_at ?d a) (route_order ?d ?n @ [routing_End ?d]),
             total_distance_km = of_int (Distance_Min a (routing_End ?d)) / 1000,
             total_time_minutes = Time_Min a (routing_End ?d),
             num_locations = int (num_nodes ?d) \<rparr>"
  have N: "num_nodes ?d = 2" by (simp add: num_nodes_def create_data_model_def astype_int_def)
  have dep: "depot ?d = 0" by (simp add: create_data_model_def)
  have e: "routing_End ?d = 2" by (simp add: routing_End_def N)
  note nx = two_nodes_route [OF posted_RoutingModel [OF pc] N dep]
  from AddDimension_arcs [OF posted_time [OF pc]]
  have "Time_Min a 0 + 20 \<le> Time_Min a 1" and "Time_Min a 1 + 20 \<le> Time_Min a 2"
    using nx
    by (simp_all add: N All_less_Suc numeral_2_eq_2 time_callback_def IndexToNode_def entry_def
        create_data_model_def astype_int_def py_int_def num_nodes_def)
  moreover from posted_time_capacity [OF pc, of 0] have "0 \<le> Time_Min a 0" by simp
  ultimately have late: "40 \<le> Time_Min a 2" by simp
  have la: "arrival_time (last (route ?r)) = Time_Min a (routing_End ?d)"
    by (simp add: stop_at_def)
  have li: "location_index (last (route ?r)) = depot ?d"
    by (simp add: stop_at_def IndexToNode_def routing_End_def)
  have w: "time_windows ?d ! 0 = (0, 10)" by (simp add: create_data_model_def)
  have "in_window ?d (last (route ?r)) \<longleftrightarrow>
      fst (time_windows ?d ! depot ?d) \<le> Time_Min a (routing_End ?d)
      \<and> Time_Min a (routing_End ?d) \<le> snd (time_windows ?d ! depot ?d)"
    by (simp only: in_window_def la li)
  also have "\<dots> \<longleftrightarrow> 0 \<le> Time_Min a 2 \<and> Time_Min a 2 \<le> 10"
    by (simp only: e dep w fst_conv snd_conv)
  finally have "\<not> in_window ?d (last (route ?r))" using late by simp
  with solve_Found [OF pc] show ?thesis by blast
qed




text \<open>
  In the instance with budget 1 and arcs of 300, every assignment that satisfies the posted
  constraints is returned with a total cumulative distance of 600.
\<close>

lemma budget_instance_always_600:
  assumes pc: "posted_constraints
     (create_data_model [[0, 300], [300, 0]] [[0, 10], [10, 0]] [(0, 100), (0, 100)] [0, 0] 1 100) a"
  shows "\<exists>r. solve
       (create_data_model [[0, 300], [300, 0]] [[0, 10], [10, 0]] [(0, 100), (0, 100)] [0, 0] 1 100)
       (Found a) = Some (Returns r)
     \<and> cumulative_distance (last (route r)) = 600"
proof -
  let ?d = "create_data_model [[0, 300], [300, 0]] [[0, 10], [10, 0]] [(0, 100), (0, 100)] [0, 0] 1 100"
  let ?n = "NextVar_Value a"
  let ?r = "\<lparr> route = map (stop_at ?d a) (route_order ?d ?n @ [routing_End ?d]),
             total_distance_km = of_int (Distance_Min a (routing_End ?d)) / 1000,
             total_time_minutes = Time_Min a (routing_End ?d),
             num_locations = int (num_nodes ?d) \<rparr>"
  have N: "num_nodes ?d = 2" by (simp add: num_nodes_def create_data_model_def astype_int_def)
  have dep: "depot ?d = 0" by (simp add: create_data_model_def)
  have e: "routing_End ?d = 2" by (simp add: routing_End_def N)
  note nx = two_nodes_route [OF posted_RoutingModel [OF pc] N dep]
  from AddDimension_arcs [OF posted_distance [OF pc]]
  have "Distance_Min a 1 = Distance_Min a 0 + 300" and "Distance_Min a 2 = Distance_Min a 1 + 300"
    using nx
    by (simp_all add: N All_less_Suc numeral_2_eq_2 distance_callback_def IndexToNode_def entry_def
        create_data_model_def astype_int_def py_int_def num_nodes_def)
  moreover from posted_distance [OF pc] have "Distance_Min a 0 = 0"
    by (simp add: AddDimension_def routing_Start_def NodeToIndex_def dep)
  ultimately have "Distance_Min a 2 = 600" by simp
  moreover have "cumulative_distance (last (route ?r)) = Distance_Min a (routing_End ?d)"
    by (simp add: stop_at_def)
  ultimately have "cumulative_distance (last (route ?r)) = 600"
    unfolding e by simp
  with solve_Found [OF pc] show ?thesis by blast
qed


text \<open>
  Claim C4, as amended. In a successful solve the cumulative distance of every stop is the
  sum of the data model's (integer) distance entries over the arcs up to that stop, and the
  reported total distance is the last of these sums divided by 1000. The arrival time of
  every stop is the arrival time of the first stop, plus the sum of travel time and service
  time over the arcs up to that stop, plus waiting of at most 60 per arc; the reported
  total time is the arrival time of the last stop.
\<close>

theorem solve_totals:
  assumes pc: "posted_constraints d a"
  shows "\<exists>r T. solve d (Found a) = Some (Returns r)
           \<and> (\<forall>k\<le>num_nodes d.
                 path_total (entry (distance_matrix d)) (take (Suc k) (map location_index (route r)))
                 = Some (cumulative_distance (route r ! k)))
           \<and> path_total (entry (distance_matrix d)) (map location_index (route r))
               = Some (cumulative_distance (last (route r)))
           \<and> total_distance_km r * 1000 = of_int (cumulative_distance (last (route r)))
           \<and> (\<forall>k\<le>num_nodes d. \<exists>U.
                 path_total (travel_plus_service d) (take (Suc k) (map location_index (route r)))
                 = Some U
               \<and> arrival_time (hd (route r)) + U \<le> arrival_time (route r ! k)
               \<and> arrival_time (route r ! k) \<le> arrival_time (hd (route r)) + U + 60 * int k)
           \<and> path_total (travel_plus_service d) (map location_index (route r)) = Some T
           \<and> total_time_minutes r = arrival_time (last (route r))
           \<and> arrival_time (hd (route r)) + T \<le> total_time_minutes r
           \<and> total_time_minutes r \<le> arrival_time (hd (route r)) + T + 60 * int (num_nodes d)"
proof -
  let ?n = "NextVar_Value a"
  let ?s = "routing_Start d"
  let ?e = "routing_End d"
  let ?N = "num_nodes d"
  let ?r = "\<lparr> route = map (stop_at d a) (route_order d ?n @ [?e]),
             total_distance_km = of_int (Distance_Min a ?e) / 1000,
             total_time_minutes = Time_Min a ?e,
             num_locations = int ?N \<rparr>"
  let ?locs = "map location_index (route ?r)"
  have rm: "RoutingModel d ?n" by (rule posted_RoutingModel [OF pc])
  have s: "solve d (Found a) = Some (Returns ?r)" by (rule solve_Found [OF pc])
  have r: "route ?r = map (stop_at d a) (route_order d ?n @ [?e])" by simp
  have len: "length (route ?r) = Suc ?N"
    using RoutingModel_order(3) [OF rm] by simp
  have tk: "take (Suc k) ?locs = map (IndexToNode d) (map (\<lambda>j. (?n ^^ j) ?s) [0..<Suc k])"
    if k: "k \<le> ?N" for k
    unfolding r by (rule take_route_locations [OF rm k])
  have nth: "route ?r ! k = stop_at d a ((?n ^^ k) ?s)" if k: "k \<le> ?N" for k
    unfolding r by (rule route_nth_chain [OF rm k])
  have hd0: "hd (route ?r) = route ?r ! 0" using len by (simp add: hd_conv_nth)
  have "route ?r ! 0 = stop_at d a ?s" using nth [of 0] by simp
  then have first: "arrival_time (hd (route ?r)) = Time_Min a ?s"
    unfolding hd0 by (simp only: arrival_time_stop_at)
  have prefix: "path_total (entry (distance_matrix d)) (take (Suc k) ?locs)
                = Some (cumulative_distance (route ?r ! k))" if k: "k \<le> ?N" for k
    unfolding tk [OF k] nth [OF k] cumulative_distance_stop_at
    by (rule distance_at_stop [OF pc k])
  have tprefix: "\<exists>U. path_total (travel_plus_service d) (take (Suc k) ?locs) = Some U
               \<and> arrival_time (hd (route ?r)) + U \<le> arrival_time (route ?r ! k)
               \<and> arrival_time (route ?r ! k) \<le> arrival_time (hd (route ?r)) + U + 60 * int k"
    if k: "k \<le> ?N" for k
    unfolding tk [OF k] nth [OF k] first arrival_time_stop_at
    by (rule time_at_stop [OF pc k])
  have ne: "route ?r \<noteq> []" using len by auto
  have lastN: "last (route ?r) = route ?r ! ?N"
    unfolding last_conv_nth [OF ne] len by simp
  have whole: "take (Suc ?N) ?locs = ?locs" using len by simp
  have total: "path_total (entry (distance_matrix d)) ?locs
               = Some (cumulative_distance (last (route ?r)))"
    using prefix [of ?N] unfolding whole lastN by simp
  have ld: "cumulative_distance (last (route ?r)) = Distance_Min a ?e"
    and lt: "arrival_time (last (route ?r)) = Time_Min a ?e"
    by (simp_all add: stop_at_def)
  have km: "total_distance_km ?r * 1000 = of_int (cumulative_distance (last (route ?r)))"
    unfolding ld by simp
  have tt: "total_time_minutes ?r = arrival_time (last (route ?r))" unfolding lt by simp
  from tprefix [of ?N] obtain T where
    T: "path_total (travel_plus_service d) ?locs = Some T"
    and lo: "arrival_time (hd (route ?r)) + T \<le> total_time_minutes ?r"
    and hi: "total_time_minutes ?r \<le> arrival_time (hd (route ?r)) + T + 60 * int ?N"
    unfolding whole tt lastN by blast
  from s prefix total km tprefix T tt lo hi show ?thesis by blast
qed

text \<open>
  The claim as stated fails on both totals: two arcs of 1000 are reported as a total
  distance of 2, and a client whose window opens at minute 30 makes the total time 45
  where travel and service add up to 25.
\<close>

theorem solve_totals_counterexample:
  "posted_constraints
     (create_data_model [[0, 1000], [1000, 0]] [[0, 10], [10, 0]] [(0, 100), (30, 40)] [0, 5] 5 100)
     \<lparr> NextVar_Value = Suc, Time_Min = (\<lambda>i. 0)(1 := 30, 2 := 45),
       Distance_Min = (\<lambda>i. 0)(1 := 1000, 2 := 2000) \<rparr>
   \<and> solve
       (create_data_model [[0, 1000], [1000, 0]] [[0, 10], [10, 0]] [(0, 100), (30, 40)] [0, 5] 5 100)
       (Found \<lparr> NextVar_Value = Suc, Time_Min = (\<lambda>i. 0)(1 := 30, 2 := 45),
                Distance_Min = (\<lambda>i. 0)(1 := 1000, 2 := 2000) \<rparr>)
     = Some (Returns
         \<lparr> route = [\<lparr> location_index = 0, arrival_time = 0, cumulative_distance = 0 \<rparr>,
                    \<lparr> location_index = 1, arrival_time = 30, cumulative_distance = 1000 \<rparr>,
                    \<lparr> location_index = 0, arrival_time = 45, cumulative_distance = 2000 \<rparr>],
           total_distance_km = 2,
           total_time_minutes = 45,
           num_locations = 2 \<rparr>)
   \<and> path_total
       (entry (distance_matrix
         (create_data_model [[0, 1000], [1000, 0]] [[0, 10], [10, 0]] [(0, 100), (30, 40)] [0, 5] 5 100)))
       [0, 1, 0] = Some 2000
   \<and> path_total
       (travel_plus_service
         (create_data_model [[0, 1000], [1000, 0]] [[0, 10], [10, 0]] [(0, 100), (30, 40)] [0, 5] 5 100))
       [0, 1, 0] = Some 25
   \<and> (2::real) \<noteq> 2000
   \<and> (45::int) \<noteq> 25"
proof -
  let ?d = "create_data_model [[0, 1000], [1000, 0]] [[0, 10], [10, 0]] [(0, 100), (30, 40)] [0, 5] 5 100"
  let ?a = "\<lparr> NextVar_Value = Suc, Time_Min = (\<lambda>i. 0)(1 := 30, 2 := (45::int)),
       Distance_Min = (\<lambda>i. 0)(1 := 1000, 2 := (2000::int)) \<rparr>"
  have pc: "posted_constraints ?d ?a"
    by (simp add: model_defs)
  have "solve ?d (Found ?a) = Some (Returns
         \<lparr> route = [\<lparr> location_index = 0, arrival_time = 0, cumulative_distance = 0 \<rparr>,
                    \<lparr> location_index = 1, arrival_time = 30, cumulative_distance = 1000 \<rparr>,
                    \<lparr> location_index = 0, arrival_time = 45, cumulative_distance = 2000 \<rparr>],
           total_distance_km = 2,
           total_time_minutes = 45,
           num_locations = 2 \<rparr>)"
    unfolding solve_Found [OF pc]
    by (simp add: route_order_def stop_at_def model_defs)
  moreover have "path_total (entry (distance_matrix ?d)) [0, 1, 0] = Some 2000"
    by (simp add: entry_def create_data_model_def astype_int_def py_int_def)
  moreover have "path_total (travel_plus_service ?d) [0, 1, 0] = Some 25"
    by (simp add: travel_plus_service_def entry_def create_data_model_def astype_int_def py_int_def)
  ultimately show ?thesis using pc by simp
qed

text \<open>
  In the instance with a client window opening at minute 30, every assignment that
  satisfies the posted constraints is returned with a total time of at least 45 and a total
  distance of 2.
\<close>

lemma window_instance_always_waits:
  assumes pc: "posted_constraints
     (create_data_model [[0, 1000], [1000, 0]] [[0, 10], [10, 0]] [(0, 100), (30, 40)] [0, 5] 5 100) a"
  shows "\<exists>r. solve
       (create_data_model [[0, 1000], [1000, 0]] [[0, 10], [10, 0]] [(0, 100), (30, 40)] [0, 5] 5 100)
       (Found a) = Some (Returns r)
     \<and> 45 \<le> total_time_minutes r
     \<and> total_distance_km r = 2"
proof -
  let ?d = "create_data_model [[0, 1000], [1000, 0]] [[0, 10], [10, 0]] [(0, 100), (30, 40)] [0, 5] 5 100"
  let ?n = "NextVar_Value a"
  let ?r = "\<lparr> route = map (stop_at ?d a) (route_order ?d ?n @ [routing_End ?d]),
             total_distance_km = of_int (Distance_Min a (routing_End ?d)) / 1000,
             total_time_minutes = Time_Min a (routing_End ?d),
             num_locations = int (num_nodes ?d) \<rparr>"
  have N: "num_nodes ?d = 2" by (simp add: num_nodes_def create_data_model_def astype_int_def)
  have dep: "depot ?d = 0" by (simp add: create_data_model_def)
  have e: "routing_End ?d = 2" by (simp add: routing_End_def N)
  note nx = two_nodes_route [OF posted_RoutingModel [OF pc] N dep]
  from AddDimension_arcs [OF posted_time [OF pc]]
  have "Time_Min a 1 + 15 \<le> Time_Min a 2"
    using nx
    by (simp_all add: N All_less_Suc numeral_2_eq_2 time_callback_def IndexToNode_def entry_def
        create_data_model_def astype_int_def py_int_def num_nodes_def)
  moreover from posted_window [OF pc, of 1] have "30 \<le> Time_Min a 1"
    by (simp add: SetRange_def create_data_model_def)
  ultimately have t: "45 \<le> Time_Min a 2" by simp
  from AddDimension_arcs [OF posted_distance [OF pc]]
  have "Distance_Min a 1 = Distance_Min a 0 + 1000" and "Distance_Min a 2 = Distance_Min a 1 + 1000"
    using nx
    by (simp_all add: N All_less_Suc numeral_2_eq_2 distance_callback_def IndexToNode_def entry_def
        create_data_model_def astype_int_def py_int_def num_nodes_def)
  moreover from posted_distance [OF pc] have "Distance_Min a 0 = 0"
    by (simp add: AddDimension_def routing_Start_def NodeToIndex_def dep)
  ultimately have dd: "Distance_Min a 2 = 2000" by simp
  have "total_time_minutes ?r = Time_Min a (routing_End ?d)"
    and "total_distance_km ?r = of_int (Distance_Min a (routing_End ?d)) / 1000"
    by simp_all
  with t dd have "45 \<le> total_time_minutes ?r \<and> total_distance_km ?r = 2"
    unfolding e by simp
  with solve_Found [OF pc] show ?thesis by blast
qed

theorem solve_totals_witness:
  "\<exists>r U. solve
         (create_data_model [[0, 1000], [1000, 0]] [[0, 10], [10, 0]] [(0, 100), (30, 40)] [0, 5] 5 100)
         (Found \<lparr> NextVar_Value = Suc, Time_Min = (\<lambda>i. 0)(1 := 30, 2 := 45),
                  Distance_Min = (\<lambda>i. 0)(1 := 1000, 2 := 2000) \<rparr>) = Some (Returns r)
     \<and> path_total
         (entry (distance_matrix
           (create_data_model [[0, 1000], [1000, 0]] [[0, 10], [10, 0]] [(0, 100), (30, 40)] [0, 5] 5 100)))
         (take 2 (map location_index (route r))) = Some (cumulative_distance (route r ! 1))
     \<and> path_total
         (entry (distance_matrix
           (create_data_model [[0, 1000], [1000, 0]] [[0, 10], [10, 0]] [(0, 100), (30, 40)] [0, 5] 5 100)))
         (map location_index (route r)) = Some (cumulative_distance (last (route r)))
     \<and> total_distance_km r * 1000 = of_int (cumulative_distance (last (route r)))
     \<and> path_total
         (travel_plus_service
           (create_data_model [[0, 1000], [1000, 0]] [[0, 10], [10, 0]] [(0, 100), (30, 40)] [0, 5] 5 100))
         (take 2 (map location_index (route r))) = Some U
     \<and> arrival_time (hd (route r)) + U \<le> arrival_time (route r ! 1)
     \<and> arrival_time (route r ! 1) \<le> arrival_time (hd (route r)) + U + 60
     \<and> total_time_minutes r = arrival_time (last (route r))"
proof -
  let ?d = "create_data_model [[0, 1000], [1000, 0]] [[0, 10], [10, 0]] [(0, 100), (30, 40)] [0, 5] 5 100"
  let ?a = "\<lparr> NextVar_Value = Suc, Time_Min = (\<lambda>i. 0)(1 := 30, 2 := (45::int)),
       Distance_Min = (\<lambda>i. 0)(1 := 1000, 2 := (2000::int)) \<rparr>"
  have pc: "posted_constraints ?d ?a"
    by (simp add: model_defs)
  have N: "num_nodes ?d = 2" by (simp add: num_nodes_def create_data_model_def astype_int_def)
  from solve_totals [OF pc] obtain r where
    s: "solve ?d (Found ?a) = Some (Returns r)"
    and p: "\<forall>k\<le>2. path_total (entry (distance_matrix ?d)) (take (Suc k) (map location_index (route r)))
                 = Some (cumulative_distance (route r ! k))"
    and t: "path_total (entry (distance_matrix ?d)) (map location_index (route r))
               = Some (cumulative_distance (last (route r)))"
    and km: "total_distance_km r * 1000 = of_int (cumulative_distance (last (route r)))"
    and q: "\<forall>k\<le>2. \<exists>U.
                 path_total (travel_plus_service ?d) (take (Suc k) (map location_index (route r)))
                 = Some U
               \<and> arrival_time (hd (route r)) + U \<le> arrival_time (route r ! k)
               \<and> arrival_time (route r ! k) \<le> arrival_time (hd (route r)) + U + 60 * int k"
    and tt: "total_time_minutes r = arrival_time (last (route r))"
    unfolding N by blast
  have one: "(1::nat) \<le> 2" by simp
  from p one have p1: "path_total (entry (distance_matrix ?d)) (take (Suc 1) (map location_index (route r)))
                 = Some (cumulative_distance (route r ! 1))" by blast
  from q one obtain U where
    "path_total (travel_plus_service ?d) (take (Suc 1) (map location_index (route r))) = Some U"
    and "arrival_time (hd (route r)) + U \<le> arrival_time (route r ! 1)"
    and "arrival_time (route r ! 1) \<le> arrival_time (hd (route r)) + U + 60 * int 1"
    by blast
  with s p1 t km tt show ?thesis
    unfolding Suc_1 by (intro exI [of _ r] exI [of _ U]) simp
qed

section \<open>Inputs and failures\<close>







section \<open>The two dimensions\<close>

text \<open>
  Claim C7. The time callback of an arc is the travel time of the arc plus the service time
  at its tail, and along every arc of an assignment the time grows by that amount plus a
  waiting of at most 60; the distance callback is the distance of the arc, along every arc
  the distance grows by exactly that amount, and the only bound on it is the vehicle
  capacity.
\<close>

theorem dimension_increments:
  assumes pc: "posted_constraints d a" and i: "i < num_nodes d"
  shows "\<exists>dist travel.
           entry (distance_matrix d) (IndexToNode d i) (IndexToNode d (NextVar_Value a i)) = Some dist
         \<and> distance_callback d i (NextVar_Value a i) = Some dist
         \<and> Distance_Min a (NextVar_Value a i) = Distance_Min a i + dist
         \<and> Distance_Min a (NextVar_Value a i) \<le> vehicle_capacity d
         \<and> entry (time_matrix d) (IndexToNode d i) (IndexToNode d (NextVar_Value a i)) = Some travel
         \<and> IndexToNode d i < length (service_times d)
         \<and> time_callback d i (NextVar_Value a i) = Some (travel + service_times d ! IndexToNode d i)
         \<and> Time_Min a i + (travel + service_times d ! IndexToNode d i) \<le> Time_Min a (NextVar_Value a i)
         \<and> Time_Min a (NextVar_Value a i) \<le> Time_Min a i + (travel + service_times d ! IndexToNode d i) + 60"
proof -
  let ?j = "NextVar_Value a i"
  let ?ni = "IndexToNode d i"
  let ?nj = "IndexToNode d ?j"
  from AddDimension_arcs [OF posted_distance [OF pc]] i
  obtain dist where dc: "distance_callback d i ?j = Some dist"
    and d1: "Distance_Min a i + dist \<le> Distance_Min a ?j"
    and d2: "Distance_Min a ?j \<le> Distance_Min a i + dist + 0"
    by (auto split: option.splits)
  from dc have de: "entry (distance_matrix d) ?ni ?nj = Some dist"
    by (simp add: distance_callback_eq)
  from d1 d2 have dq: "Distance_Min a ?j = Distance_Min a i + dist" by simp
  from pc i have "?j \<le> num_nodes d"
    by (simp add: posted_constraints_def RoutingModel_def routing_End_def)
  from posted_distance_capacity [OF pc this]
  have dcap: "Distance_Min a ?j \<le> vehicle_capacity d" by simp
  from AddDimension_arcs [OF posted_time [OF pc]] i
  obtain t where tc: "time_callback d i ?j = Some t"
    and t1: "Time_Min a i + t \<le> Time_Min a ?j"
    and t2: "Time_Min a ?j \<le> Time_Min a i + t + 60"
    by (auto split: option.splits)
  from tc obtain travel where te: "entry (time_matrix d) ?ni ?nj = Some travel"
    and sl: "?ni < length (service_times d)"
    and tq: "t = travel + service_times d ! ?ni"
    unfolding time_callback_eq
    by (auto simp: travel_plus_service_def split: option.splits if_splits)
  from de dc dq dcap te sl tc t1 t2 show ?thesis unfolding tq by blast
qed

theorem dimension_increments_witness:
  "\<exists>dist travel.
      entry (distance_matrix
        (create_data_model [[0, 1000], [1000, 0]] [[0, 10], [10, 0]] [(0, 100), (30, 40)] [0, 5] 5 100))
        1 0 = Some dist
    \<and> distance_callback
        (create_data_model [[0, 1000], [1000, 0]] [[0, 10], [10, 0]] [(0, 100), (30, 40)] [0, 5] 5 100)
        1 2 = Some dist
    \<and> (2000::int) = 1000 + dist
    \<and> entry (time_matrix
        (create_data_model [[0, 1000], [1000, 0]] [[0, 10], [10, 0]] [(0, 100), (30, 40)] [0, 5] 5 100))
        1 0 = Some travel
    \<and> time_callback
        (create_data_model [[0, 1000], [1000, 0]] [[0, 10], [10, 0]] [(0, 100), (30, 40)] [0, 5] 5 100)
        1 2 = Some (travel + 5)
    \<and> 30 + (travel + 5) \<le> (45::int)
    \<and> (45::int) \<le> 30 + (travel + 5) + 60"
proof -
  let ?d = "create_data_model [[0, 1000], [1000, 0]] [[0, 10], [10, 0]] [(0, 100), (30, 40)] [0, 5] 5 100"
  let ?a = "\<lparr> NextVar_Value = Suc, Time_Min = (\<lambda>i. 0)(1 := 30, 2 := (45::int)),
       Distance_Min = (\<lambda>i. 0)(1 := 1000, 2 := (2000::int)) \<rparr>"
  have pc: "posted_constraints ?d ?a"
    by (simp add: model_defs)
  have i: "1 < num_nodes ?d" by (simp add: num_nodes_def create_data_model_def astype_int_def)
  have n: "IndexToNode ?d (Suc 0) = Suc 0" "IndexToNode ?d (Suc (Suc 0)) = 0"
    "service_times ?d ! Suc 0 = 5"
    by (simp_all add: IndexToNode_def num_nodes_def create_data_model_def astype_int_def)
  from dimension_increments [OF pc i] show ?thesis
    by (simp add: n numeral_2_eq_2) blast
qed

text \<open>
  Claim C8. With non-negative distance and time matrices and non-negative service
  durations, the cumulative distances and the arrival times of a returned route never
  decrease from one stop to the next.
\<close>

theorem solve_cumulatives_nondecreasing:
  assumes pc: "posted_constraints (create_data_model dm tm tw st md mt) a"
    and dn: "nonneg_matrix dm"
    and tn: "nonneg_matrix tm"
    and sn: "\<forall>s \<in> set st. 0 \<le> s"
  shows "\<exists>r. solve (create_data_model dm tm tw st md mt) (Found a) = Some (Returns r)
           \<and> sorted (map cumulative_distance (route r))
           \<and> sorted (map arrival_time (route r))"
proof -
  let ?d = "create_data_model dm tm tw st md mt"
  let ?n = "NextVar_Value a"
  let ?s = "routing_Start ?d"
  let ?e = "routing_End ?d"
  let ?N = "num_nodes ?d"
  let ?chain = "map (\<lambda>k. (?n ^^ k) ?s) [0..<Suc ?N]"
  let ?r = "\<lparr> route = map (stop_at ?d a) (route_order ?d ?n @ [?e]),
             total_distance_km = of_int (Distance_Min a ?e) / 1000,
             total_time_minutes = Time_Min a ?e,
             num_locations = int ?N \<rparr>"
  have rm: "RoutingModel ?d ?n" by (rule posted_RoutingModel [OF pc])
  have s: "solve ?d (Found a) = Some (Returns ?r)" by (rule solve_Found [OF pc])
  have r: "route ?r = map (stop_at ?d a) ?chain"
    using route_chain [OF rm] by simp
  have dpos: "0 \<le> t" if "distance_callback ?d i j = Some t" for i j t
  proof -
    from that have "entry (astype_int dm) (IndexToNode ?d i) (IndexToNode ?d j) = Some t"
      by (simp add: distance_callback_def create_data_model_def)
    with dn show ?thesis by (rule entry_astype_int_nonneg)
  qed
  have tpos: "0 \<le> t" if "time_callback ?d i j = Some t" for i j t
  proof -
    let ?i = "IndexToNode ?d i"
    from that obtain u where u: "entry (astype_int tm) ?i (IndexToNode ?d j) = Some u"
      and i: "?i < length st" and t: "t = u + st ! ?i"
      unfolding time_callback_eq
      by (auto simp: travel_plus_service_def create_data_model_def split: option.splits if_splits)
    from tn u have "0 \<le> u" by (rule entry_astype_int_nonneg)
    moreover from i sn have "0 \<le> st ! ?i" by simp
    ultimately show ?thesis using t by simp
  qed
  have "sorted (map (Distance_Min a) ?chain)"
    by (rule chain_sorted [where transit = "distance_callback ?d" and slack_max = 0 and N = ?N,
          OF AddDimension_arcs [OF posted_distance [OF pc]] dpos chain_below [OF rm]])
  moreover have "map cumulative_distance (route ?r) = map (Distance_Min a) ?chain"
    unfolding r map_map by (rule map_cong) (simp_all add: cumulative_distance_stop_at)
  ultimately have sd: "sorted (map cumulative_distance (route ?r))" by (simp only:)
  have "sorted (map (Time_Min a) ?chain)"
    by (rule chain_sorted [where transit = "time_callback ?d" and slack_max = 60 and N = ?N,
          OF AddDimension_arcs [OF posted_time [OF pc]] tpos chain_below [OF rm]])
  moreover have "map arrival_time (route ?r) = map (Time_Min a) ?chain"
    unfolding r map_map by (rule map_cong) (simp_all add: arrival_time_stop_at)
  ultimately have st: "sorted (map arrival_time (route ?r))" by (simp only:)
  from s sd st show ?thesis by blast
qed

theorem solve_cumulatives_nondecreasing_witness:
  "\<exists>r. solve
         (create_data_model [[0, 1000, 2000], [1000, 0, 1500], [2000, 1500, 0]]
            [[0, 10, 20], [10, 0, 15], [20, 15, 0]] [(0, 480), (0, 480), (30, 480)] [0, 5, 5] 10 480)
         (Found \<lparr> NextVar_Value = (\<lambda>i. i)(0 := 2, 2 := 1, 1 := 3),
                  Time_Min = (\<lambda>i. 0)(2 := 30, 1 := 50, 3 := 65),
                  Distance_Min = (\<lambda>i. 0)(2 := 2000, 1 := 3500, 3 := 4500) \<rparr>) = Some (Returns r)
     \<and> sorted (map cumulative_distance (route r))
     \<and> sorted (map arrival_time (route r))"
proof -
  let ?a = "\<lparr> NextVar_Value = (\<lambda>i. i)(0 := 2, 2 := 1, 1 := (3::nat)),
       Time_Min = (\<lambda>i. 0)(2 := 30, 1 := 50, 3 := (65::int)),
       Distance_Min = (\<lambda>i. 0)(2 := 2000, 1 := 3500, 3 := (4500::int)) \<rparr>"
  have pc: "posted_constraints
     (create_data_model [[0, 1000, 2000], [1000, 0, 1500], [2000, 1500, 0]]
        [[0, 10, 20], [10, 0, 15], [20, 15, 0]] [(0, 480), (0, 480), (30, 480)] [0, 5, 5] 10 480) ?a"
    by (simp add: model_defs)
  have dn: "nonneg_matrix [[0, 1000, 2000], [1000, 0, 1500], [2000, 1500, 0]]"
    by (simp add: nonneg_matrix_def)
  have tn: "nonneg_matrix [[0, 10, 20], [10, 0, 15], [20, 15, 0]]"
    by (simp add: nonneg_matrix_def)
  have sn: "\<forall>s \<in> set [0, 5, 5::int]. 0 \<le> s" by simp
  from solve_cumulatives_nondecreasing [OF pc dn tn sn] show ?thesis .
qed

section \<open>The fallback of the matrix provider\<close>

text \<open>
  Claim C9. When the request to the routing service fails, the matrix provider returns the
  geometric estimate: for \<open>n\<close> locations, two matrices of \<open>n\<close> rows of \<open>n\<close> entries, all
  non-negative, with zero on the diagonal.
\<close>

theorem euclidean_fallback_matrices:
  "get_matrix RequestException locs = Inr (euclidean_fallback locs)
   \<and> length (distances (euclidean_fallback locs)) = length locs
   \<and> length (durations (euclidean_fallback locs)) = length locs
   \<and> (\<forall>i<length locs.
         length (distances (euclidean_fallback locs) ! i) = length locs
       \<and> length (durations (euclidean_fallback locs) ! i) = length locs
       \<and> distances (euclidean_fallback locs) ! i ! i = 0
       \<and> durations (euclidean_fallback locs) ! i ! i = 0
       \<and> (\<forall>j<length locs.
             0 \<le> distances (euclidean_fallback locs) ! i ! j
           \<and> 0 \<le> durations (euclidean_fallback locs) ! i ! j))"
proof -
  have g: "get_matrix RequestException locs = Inr (euclidean_fallback locs)"
    by (simp add: get_matrix_def)
  have l: "length (distances (euclidean_fallback locs)) = length locs"
    "length (durations (euclidean_fallback locs)) = length locs"
    by (simp_all add: euclidean_fallback_def Let_def)
  have rows: "length (distances (euclidean_fallback locs) ! i) = length locs
       \<and> length (durations (euclidean_fallback locs) ! i) = length locs
       \<and> distances (euclidean_fallback locs) ! i ! i = 0
       \<and> durations (euclidean_fallback locs) ! i ! i = 0" if "i < length locs" for i
    using that by (simp add: euclidean_fallback_def Let_def)
  have entries: "0 \<le> distances (euclidean_fallback locs) ! i ! j
           \<and> 0 \<le> durations (euclidean_fallback locs) ! i ! j"
    if "i < length locs" "j < length locs" for i j
    using that fallback_dist_nonneg [of "locs ! i" "locs ! j"]
    by (simp add: euclidean_fallback_def Let_def)
  from g l rows entries show ?thesis by blast
qed

theorem euclidean_fallback_matrices_witness:
  "get_matrix RequestException [(0, 0), (3, 4)] = Inr (euclidean_fallback [(0, 0), (3, 4)])
   \<and> length (distances (euclidean_fallback [(0, 0), (3, 4)])) = 2
   \<and> length (durations (euclidean_fallback [(0, 0), (3, 4)])) = 2
   \<and> length (distances (euclidean_fallback [(0, 0), (3, 4)]) ! 1) = 2
   \<and> distances (euclidean_fallback [(0, 0), (3, 4)]) ! 1 ! 1 = 0
   \<and> durations (euclidean_fallback [(0, 0), (3, 4)]) ! 1 ! 1 = 0
   \<and> 0 \<le> distances (euclidean_fallback [(0, 0), (3, 4)]) ! 1 ! 0
   \<and> 0 \<le> durations (euclidean_fallback [(0, 0), (3, 4)]) ! 1 ! 0
   \<and> distances (euclidean_fallback [(0, 0), (3, 4)]) ! 0 ! 1 = 555"
proof -
  have d: "distances (euclidean_fallback [(0, 0), (3, 4)]) ! 0 ! 1 = 555"
  proof -
    have "sqrt ((3 * 111)\<^sup>2 + (4 * 111 * cos (radians 0))\<^sup>2) = sqrt (555\<^sup>2)"
      by (simp add: radians_def power2_eq_square)
    also have "\<dots> = 555" by simp
    finally show ?thesis
      by (simp add: euclidean_fallback_def Let_def fallback_dist_def)
  qed
  from euclidean_fallback_matrices [of "[(0, 0), (3, 4)]"] d show ?thesis
    by (simp add: All_less_Suc numeral_2_eq_2)
qed

section \<open>Truncation to integers\<close>



end
